theory Spec2Isabelle
  imports Complex_Main
begin

section \<open>Tables read from the per-strategy CSV files\<close>

text \<open>
  A data frame is the header of the CSV file and its rows, cell by cell. A cell holds a
  number or is missing (\<open>None\<close>, pandas' NaN). Numbers are exact reals: the rounding
  of binary floating point is outside this development, and so is every property that
  turns on it, such as the effect of the order of the additions on a sum.
\<close>

type_synonym cell = "real option"

record dataframe =
  columns :: "string list"
  rows :: "cell list list"

datatype error = KeyError string

text \<open>Position of a column label in the header (the first one that matches).\<close>

fun col_index :: "string \<Rightarrow> string list \<Rightarrow> nat option" where
  "col_index c [] = None"
| "col_index c (h # hs) =
     (if h = c then Some 0 else map_option Suc (col_index c hs))"

text \<open>A row shorter than the header is padded with missing cells by the CSV reader.\<close>

definition cell_at :: "cell list \<Rightarrow> nat \<Rightarrow> cell" where
  "cell_at r i = (if i < length r then r ! i else None)"

text \<open>\<open>df[c]\<close>: the column labelled \<open>c\<close>, or KeyError when the header has no such label.\<close>

definition getitem :: "dataframe \<Rightarrow> string \<Rightarrow> error + cell list" where
  "getitem df c =
     (case col_index c (columns df) of
        None \<Rightarrow> Inl (KeyError c)
      | Some i \<Rightarrow> Inr (map (\<lambda>r. cell_at r i) (rows df)))"

text \<open>\<open>Series.sum()\<close>: missing cells are skipped; the sum of no cells is 0.\<close>

definition cell_value :: "cell \<Rightarrow> real" where
  "cell_value c = (case c of None \<Rightarrow> 0 | Some v \<Rightarrow> v)"

definition series_sum :: "cell list \<Rightarrow> real" where
  "series_sum s = sum_list (map cell_value s)"

text \<open>\<open>df[c].sum() if c in df.columns else 0\<close>\<close>

definition sum_if_present :: "dataframe \<Rightarrow> string \<Rightarrow> error + real" where
  "sum_if_present df c =
     (if c \<in> set (columns df)
      then (case getitem df c of Inl e \<Rightarrow> Inl e | Inr s \<Rightarrow> Inr (series_sum s))
      else Inr 0)"

section \<open>calculate_metrics\<close>

record metrics =
  total_cancers :: real
  total_cancer_deaths :: real
  total_life_years :: real
  total_tests :: real
  total_cyto :: real
  total_hpv :: real
  total_cotest :: real
  total_cin2_detected :: real
  total_cin3_detected :: real
  case_fatality_rate :: real
  cancer_rate_per_100k :: real
  death_rate_per_100k :: real

text \<open>
  The second half of \<open>calculate_metrics\<close>: the three rates, each guarded by its
  denominator, added to the dictionary of totals.
\<close>

definition calculate_rates :: "metrics \<Rightarrow> metrics" where
  "calculate_rates m =
     (let m1 = (if total_cancers m > 0
                then m\<lparr>case_fatality_rate := (total_cancer_deaths m / total_cancers m) * 100\<rparr>
                else m\<lparr>case_fatality_rate := 0\<rparr>)
      in if total_life_years m1 > 0
         then m1\<lparr>cancer_rate_per_100k := (total_cancers m1 / total_life_years m1) * 100000,
                 death_rate_per_100k := (total_cancer_deaths m1 / total_life_years m1) * 100000\<rparr>
         else m1\<lparr>cancer_rate_per_100k := 0, death_rate_per_100k := 0\<rparr>)"

text \<open>
  The dictionary literal is evaluated entry by entry, so the first label that fails to
  resolve decides the KeyError. \<open>Cancer\<close>, \<open>Cancer death\<close> and \<open>Population\<close> are
  indexed without a presence test; the other six are tested first.
\<close>

definition calculate_metrics :: "dataframe option \<Rightarrow> error + metrics option" where
  "calculate_metrics dfo =
     (case dfo of
        None \<Rightarrow> Inr None
      | Some df \<Rightarrow>
        (case getitem df ''Cancer'' of Inl e \<Rightarrow> Inl e | Inr cancer \<Rightarrow>
        (case getitem df ''Cancer death'' of Inl e \<Rightarrow> Inl e | Inr cancer_death \<Rightarrow>
        (case getitem df ''Population'' of Inl e \<Rightarrow> Inl e | Inr population \<Rightarrow>
        (case sum_if_present df ''Total test'' of Inl e \<Rightarrow> Inl e | Inr tests \<Rightarrow>
        (case sum_if_present df ''Cyto'' of Inl e \<Rightarrow> Inl e | Inr cyto \<Rightarrow>
        (case sum_if_present df ''HPV'' of Inl e \<Rightarrow> Inl e | Inr hpv \<Rightarrow>
        (case sum_if_present df ''Cotest'' of Inl e \<Rightarrow> Inl e | Inr cotest \<Rightarrow>
        (case sum_if_present df ''CIN2 detected'' of Inl e \<Rightarrow> Inl e | Inr cin2 \<Rightarrow>
        (case sum_if_present df ''CIN3 detected'' of Inl e \<Rightarrow> Inl e | Inr cin3 \<Rightarrow>
           Inr (Some (calculate_rates
             \<lparr>total_cancers = series_sum cancer,
              total_cancer_deaths = series_sum cancer_death,
              total_life_years = series_sum population,
              total_tests = tests,
              total_cyto = cyto,
              total_hpv = hpv,
              total_cotest = cotest,
              total_cin2_detected = cin2,
              total_cin3_detected = cin3,
              case_fatality_rate = 0,
              cancer_rate_per_100k = 0,
              death_rate_per_100k = 0\<rparr>))))))))))))"

section \<open>Decimal strings\<close>

text \<open>
  The text of a natural number in base ten, as an f-string interpolates it, and the way
  back: \<open>str.isdigit\<close> (on ASCII text) and \<open>int\<close> on a string of digits.
\<close>

definition digit_char :: "nat \<Rightarrow> char" where
  "digit_char d = ''0123456789'' ! (d mod 10)"

fun string_of_nat :: "nat \<Rightarrow> string" where
  "string_of_nat n =
     (if n < 10 then [digit_char n]
      else string_of_nat (n div 10) @ [digit_char (n mod 10)])"

declare string_of_nat.simps [simp del]

text \<open>The value of a digit is its place among the ten digits.\<close>

definition digit_val :: "char \<Rightarrow> nat" where
  "digit_val c = length (takeWhile (\<lambda>d. d \<noteq> c) ''0123456789'')"

definition isdigit :: "string \<Rightarrow> bool" where
  "isdigit x = (x \<noteq> [] \<and> list_all (\<lambda>c. c \<in> set ''0123456789'') x)"

definition int_of_string :: "string \<Rightarrow> nat" where
  "int_of_string x = foldl (\<lambda>acc c. 10 * acc + digit_val c) 0 x"

section \<open>STRATEGY_DEFINITIONS\<close>

record strategy_info =
  display :: string
  name :: string
  test :: string
  start_age :: nat
  end_age :: nat
  switch_age :: "nat option"
  exit_tests :: nat
  interval :: string

text \<open>The rightwards arrow U+2192 of the source's labels, as its three UTF-8 bytes.\<close>

definition arrow :: string where
  "arrow = [CHR 0xE2, CHR 0x86, CHR 0x92]"

definition STRATEGY_DEFINITIONS :: "nat \<rightharpoonup> strategy_info" where
  "STRATEGY_DEFINITIONS = map_of [
      (1, \<lparr>display = ''1'', name = ''CYTO-3Y, 21-65'',
        test = ''Cyto only'', start_age = 21, end_age = 65,
        switch_age = None, exit_tests = 3, interval = ''3Y''\<rparr>),
      (2, \<lparr>display = ''2'', name = ''CYTO-3Y, 21/HPV-5Y, 30-65'',
        test = ''Cyto'' @ arrow @ ''HPV'', start_age = 21, end_age = 65,
        switch_age = Some 30, exit_tests = 2, interval = ''3Y'' @ arrow @ ''5Y''\<rparr>),
      (3, \<lparr>display = ''3'', name = ''CYTO-3Y, 21/COTEST-5Y, 30-65'',
        test = ''Cyto'' @ arrow @ ''Cotest'', start_age = 21, end_age = 65,
        switch_age = Some 30, exit_tests = 2, interval = ''3Y'' @ arrow @ ''5Y''\<rparr>),
      (4, \<lparr>display = ''4'', name = ''CYTO-3Y, 21-70'',
        test = ''Cyto only'', start_age = 21, end_age = 70,
        switch_age = None, exit_tests = 3, interval = ''3Y''\<rparr>),
      (5, \<lparr>display = ''5'', name = ''CYTO-3Y, 21/HPV-5Y, 30-70'',
        test = ''Cyto'' @ arrow @ ''HPV'', start_age = 21, end_age = 70,
        switch_age = Some 30, exit_tests = 2, interval = ''3Y'' @ arrow @ ''5Y''\<rparr>),
      (6, \<lparr>display = ''6'', name = ''CYTO-3Y, 21/COTEST-5Y, 30-70'',
        test = ''Cyto'' @ arrow @ ''Cotest'', start_age = 21, end_age = 70,
        switch_age = Some 30, exit_tests = 2, interval = ''3Y'' @ arrow @ ''5Y''\<rparr>),
      (7, \<lparr>display = ''7'', name = ''CYTO-3Y, 21-75'',
        test = ''Cyto only'', start_age = 21, end_age = 75,
        switch_age = None, exit_tests = 3, interval = ''3Y''\<rparr>),
      (8, \<lparr>display = ''8'', name = ''CYTO-3Y, 21/HPV-5Y, 30-75'',
        test = ''Cyto'' @ arrow @ ''HPV'', start_age = 21, end_age = 75,
        switch_age = Some 30, exit_tests = 2, interval = ''3Y'' @ arrow @ ''5Y''\<rparr>),
      (9, \<lparr>display = ''9'', name = ''CYTO-3Y, 21/COTEST-5Y, 30-75'',
        test = ''Cyto'' @ arrow @ ''Cotest'', start_age = 21, end_age = 75,
        switch_age = Some 30, exit_tests = 2, interval = ''3Y'' @ arrow @ ''5Y''\<rparr>),
      (10, \<lparr>display = ''10'', name = ''CYTO-3Y, 21/HPV-5Y, 30-65 (1 exit)'',
        test = ''Cyto'' @ arrow @ ''HPV'', start_age = 21, end_age = 65,
        switch_age = Some 30, exit_tests = 1, interval = ''3Y'' @ arrow @ ''5Y''\<rparr>),
      (11, \<lparr>display = ''11'', name = ''CYTO-3Y, 21/COTEST-5Y, 30-65 (1 exit)'',
        test = ''Cyto'' @ arrow @ ''Cotest'', start_age = 21, end_age = 65,
        switch_age = Some 30, exit_tests = 1, interval = ''3Y'' @ arrow @ ''5Y''\<rparr>),
      (12, \<lparr>display = ''12'', name = ''CYTO-3Y, 21/HPV-5Y, 30-70 (1 exit)'',
        test = ''Cyto'' @ arrow @ ''HPV'', start_age = 21, end_age = 70,
        switch_age = Some 30, exit_tests = 1, interval = ''3Y'' @ arrow @ ''5Y''\<rparr>),
      (13, \<lparr>display = ''13'', name = ''CYTO-3Y, 21/COTEST-5Y, 30-70 (1 exit)'',
        test = ''Cyto'' @ arrow @ ''Cotest'', start_age = 21, end_age = 70,
        switch_age = Some 30, exit_tests = 1, interval = ''3Y'' @ arrow @ ''5Y''\<rparr>),
      (14, \<lparr>display = ''14'', name = ''CYTO-3Y, 21/HPV-5Y, 30-75 (1 exit)'',
        test = ''Cyto'' @ arrow @ ''HPV'', start_age = 21, end_age = 75,
        switch_age = Some 30, exit_tests = 1, interval = ''3Y'' @ arrow @ ''5Y''\<rparr>),
      (15, \<lparr>display = ''15'', name = ''CYTO-3Y, 21/COTEST-5Y, 30-75 (1 exit)'',
        test = ''Cyto'' @ arrow @ ''Cotest'', start_age = 21, end_age = 75,
        switch_age = Some 30, exit_tests = 1, interval = ''3Y'' @ arrow @ ''5Y''\<rparr>)]"

section \<open>Loading one strategy\<close>

text \<open>
  The working directory is a map from file names to the tables the CSV reader makes of
  them; a name outside its domain is a file that does not exist (FileNotFoundError, the
  one exception the loader catches). A file that exists is taken to be readable as a
  table. What the program shows on the page is a list of events, in the order of the
  calls. Strategy numbers come from \<open>range(1, 16)\<close> and are natural numbers.
\<close>

type_synonym filesystem = "string \<rightharpoonup> dataframe"

datatype ui_event =
    St_warning string
  | St_error string
  | St_title string
  | St_markdown string
  | St_spinner string

definition filename :: "nat \<Rightarrow> string" where
  "filename strategy_num = ''cancer_screening_results'' @ string_of_nat strategy_num @ ''.csv''"

definition load_strategy_data :: "filesystem \<Rightarrow> nat \<Rightarrow> dataframe option \<times> ui_event list" where
  "load_strategy_data fs strategy_num =
     (case fs (filename strategy_num) of
        Some df \<Rightarrow> (Some df, [])
      | None \<Rightarrow> (None, [St_warning (''File '' @ filename strategy_num @ '' not found'')]))"

section \<open>load_all_strategies\<close>

datatype switch_age_cell = Switch_at nat | Dash

record summary_row = metrics +
  Strategy :: nat
  Display :: string
  Name :: string
  Test_Type :: string
  Start_Age :: nat
  End_Age :: nat
  Switch_Age :: switch_age_cell
  Exit_Tests :: nat
  Interval :: string

text \<open>
  The row of one strategy: the catalog entry joined with the metrics. A switch age that
  is \<open>None\<close> (or 0, which Python also takes as false) is shown as a dash.
\<close>

definition make_result :: "nat \<Rightarrow> strategy_info \<Rightarrow> metrics \<Rightarrow> summary_row" where
  "make_result strategy_num info m =
     \<lparr>total_cancers = total_cancers m,
      total_cancer_deaths = total_cancer_deaths m,
      total_life_years = total_life_years m,
      total_tests = total_tests m,
      total_cyto = total_cyto m,
      total_hpv = total_hpv m,
      total_cotest = total_cotest m,
      total_cin2_detected = total_cin2_detected m,
      total_cin3_detected = total_cin3_detected m,
      case_fatality_rate = case_fatality_rate m,
      cancer_rate_per_100k = cancer_rate_per_100k m,
      death_rate_per_100k = death_rate_per_100k m,
      Strategy = strategy_num,
      Display = display info,
      Name = name info,
      Test_Type = test info,
      Start_Age = start_age info,
      End_Age = end_age info,
      Switch_Age = (case switch_age info of
                      None \<Rightarrow> Dash
                    | Some a \<Rightarrow> if a = 0 then Dash else Switch_at a),
      Exit_Tests = exit_tests info,
      Interval = interval info\<rparr>"

record load_state =
  results :: "summary_row list"
  age_distributions :: "nat \<rightharpoonup> dataframe"
  shown :: "ui_event list"

text \<open>
  The body of the \<open>for\<close> loop, over the strategy numbers still to visit. A missing file
  and an absent metrics record skip to the next number; a KeyError leaves the loop and the
  function.
\<close>

fun load_loop :: "filesystem \<Rightarrow> nat list \<Rightarrow> load_state \<Rightarrow> error + load_state" where
  "load_loop fs [] st = Inr st"
| "load_loop fs (strategy_num # rest) st =
     (case load_strategy_data fs strategy_num of
        (None, w) \<Rightarrow> load_loop fs rest (st\<lparr>shown := shown st @ w\<rparr>)
      | (Some df, w) \<Rightarrow>
        (let st1 = st\<lparr>age_distributions := (age_distributions st)(strategy_num \<mapsto> df),
                      shown := shown st @ w\<rparr>
         in case calculate_metrics (Some df) of
              Inl e \<Rightarrow> Inl e
            | Inr None \<Rightarrow> load_loop fs rest st1
            | Inr (Some m) \<Rightarrow>
              (case STRATEGY_DEFINITIONS strategy_num of
                 None \<Rightarrow> Inl (KeyError (string_of_nat strategy_num))
               | Some strategy_info \<Rightarrow>
                   load_loop fs rest
                     (st1\<lparr>results := results st1 @ [make_result strategy_num strategy_info m]\<rparr>))))"

definition load_all_strategies :: "filesystem \<Rightarrow> error + load_state" where
  "load_all_strategies fs =
     load_loop fs [1..<16] \<lparr>results = [], age_distributions = Map.empty, shown = []\<rparr>"

section \<open>Tables ordered for display\<close>

text \<open>
  The key written out in \<open>create_strategy_overview_table\<close>, and the one written out
  again before the detailed comparison table of \<open>main\<close>.
\<close>

definition overview_sort_key :: "string \<Rightarrow> nat" where
  "overview_sort_key x =
     (if isdigit x \<and> int_of_string x \<le> 9 then int_of_string x
      else if isdigit x then int_of_string x + 3 else 999)"

definition detailed_sort_key :: "string \<Rightarrow> nat" where
  "detailed_sort_key x =
     (if isdigit x \<and> int_of_string x \<le> 9 then int_of_string x
      else if isdigit x then int_of_string x + 3 else 999)"

record overview_row =
  ov_Strategy :: string
  ov_Description :: string
  ov_Test_Type :: string
  ov_Start_Age :: nat
  ov_End_Age :: nat
  ov_Switch_Age :: switch_age_cell
  ov_Exit_Tests :: nat
  ov_Interval :: string

text \<open>
  \<open>sort_values\<close> is modelled by the stable \<open>sort_key\<close>; the keys of distinct display
  labels are distinct, and then every sorting algorithm gives the same table.
\<close>

definition create_strategy_overview_table :: "summary_row list \<Rightarrow> overview_row list" where
  "create_strategy_overview_table df =
     (let display_df =
            map (\<lambda>r. \<lparr>ov_Strategy = Display r, ov_Description = Name r,
                       ov_Test_Type = Test_Type r, ov_Start_Age = Start_Age r,
                       ov_End_Age = End_Age r, ov_Switch_Age = Switch_Age r,
                       ov_Exit_Tests = Exit_Tests r, ov_Interval = Interval r\<rparr>) df
      in sort_key (\<lambda>r. overview_sort_key (ov_Strategy r)) display_df)"

record detailed_row =
  dt_Strategy :: string
  dt_Description :: string
  dt_Test_Type :: string
  dt_End_Age :: nat
  dt_Exit_Tests :: nat
  dt_Total_Cancers :: real
  dt_Total_Deaths :: real
  dt_Total_Life_Years :: real
  dt_Case_Fatality :: real
  dt_Cancer_Rate :: real
  dt_Death_Rate :: real

text \<open>
  The detailed comparison table of \<open>main\<close>, selected, renamed and sorted, before its
  numbers are formatted as text.
\<close>

definition detailed_comparison_table :: "summary_row list \<Rightarrow> detailed_row list" where
  "detailed_comparison_table df =
     (let display_df =
            map (\<lambda>r. \<lparr>dt_Strategy = Display r, dt_Description = Name r,
                       dt_Test_Type = Test_Type r, dt_End_Age = End_Age r,
                       dt_Exit_Tests = Exit_Tests r,
                       dt_Total_Cancers = total_cancers r,
                       dt_Total_Deaths = total_cancer_deaths r,
                       dt_Total_Life_Years = total_life_years r,
                       dt_Case_Fatality = case_fatality_rate r,
                       dt_Cancer_Rate = cancer_rate_per_100k r,
                       dt_Death_Rate = death_rate_per_100k r\<rparr>) df
      in sort_key (\<lambda>r. detailed_sort_key (dt_Strategy r)) display_df)"

text \<open>\<open>df.sort_values('Strategy')\<close>, the order of the bars in \<open>create_main_analysis_charts\<close>.\<close>

definition df_sorted :: "summary_row list \<Rightarrow> summary_row list" where
  "df_sorted df = sort_key Strategy df"

section \<open>main\<close>

text \<open>
  \<open>main\<close> up to its test for an empty summary. Everything after the test (tables,
  charts, findings, export) is the parameter \<open>present\<close>: it is reached only with a
  summary that has rows.
\<close>

definition newline :: string where
  "newline = [CHR 0x0A]"

definition microscope :: string where
  "microscope = [CHR 0xF0, CHR 0x9F, CHR 0x94, CHR 0xAC]"

definition no_data_message :: string where
  "no_data_message =
     ''No data files found. Please ensure cancer_screening_results1.csv ''
       @ ''through cancer_screening_results15.csv are in the current directory.''"

definition main ::
  "filesystem \<Rightarrow> (summary_row list \<Rightarrow> (nat \<rightharpoonup> dataframe) \<Rightarrow> error + ui_event list)
     \<Rightarrow> error + ui_event list" where
  "main fs present =
     (let intro =
            [St_title (microscope @ '' HPV Cancer Screening Strategy Analysis Dashboard''),
             St_markdown (newline
               @ ''    ### Analysis of 15 Screening Strategies (Strategies 1-9, 13-18)'' @ newline
               @ ''    This dashboard analyzes the effectiveness of different HPV cancer screening strategies to answer four key questions.''
               @ newline @ ''    ''),
             St_spinner ''Loading all strategy data...'']
      in case load_all_strategies fs of
           Inl e \<Rightarrow> Inl e
         | Inr st \<Rightarrow>
             if results st = []
             then Inr (intro @ shown st @ [St_error no_data_message])
             else (case present (results st) (age_distributions st) of
                     Inl e \<Rightarrow> Inl e
                   | Inr evs \<Rightarrow> Inr (intro @ shown st @ evs)))"

section \<open>Notions used to state the properties\<close>

text \<open>The columns that \<open>calculate_metrics\<close> indexes without asking whether they exist.\<close>

definition required_columns :: "string list" where
  "required_columns = [''Cancer'', ''Cancer death'', ''Population'']"

text \<open>The sum of a column, 0 for a column the table does not have.\<close>

definition column_total :: "dataframe \<Rightarrow> string \<Rightarrow> real" where
  "column_total df c = (case getitem df c of Inl e \<Rightarrow> 0 | Inr s \<Rightarrow> series_sum s)"

text \<open>Every file that exists, among those of the given strategy numbers, has these columns.\<close>

definition well_formed :: "filesystem \<Rightarrow> nat list \<Rightarrow> bool" where
  "well_formed fs ids =
     (\<forall>i \<in> set ids. case fs (filename i) of
                       None \<Rightarrow> True
                     | Some df \<Rightarrow> set required_columns \<subseteq> set (columns df))"

text \<open>The row that one pass of the loop appends for strategy \<open>i\<close>, when it appends one.\<close>

definition loaded_row :: "filesystem \<Rightarrow> nat \<Rightarrow> summary_row option" where
  "loaded_row fs i =
     (case fs (filename i) of
        None \<Rightarrow> None
      | Some df \<Rightarrow>
        (case calculate_metrics (Some df) of
           Inr (Some m) \<Rightarrow>
             (case STRATEGY_DEFINITIONS i of
                None \<Rightarrow> None
              | Some info \<Rightarrow> Some (make_result i info m))
         | _ \<Rightarrow> None))"

text \<open>The state a loop over \<open>ids\<close> ends in, when it ends without a KeyError.\<close>

definition loop_result :: "filesystem \<Rightarrow> nat list \<Rightarrow> load_state \<Rightarrow> load_state" where
  "loop_result fs ids st =
     \<lparr>results = results st @ List.map_filter (loaded_row fs) ids,
      age_distributions =
        age_distributions st ++ (\<lambda>i. if i \<in> set ids then fs (filename i) else None),
      shown = shown st @ concat (map (\<lambda>i. snd (load_strategy_data fs i)) ids)\<rparr>"

subsection \<open>Example tables and directories\<close>

definition series_123 :: dataframe where
  "series_123 =
     \<lparr>columns = [''Age'', ''Cancer'', ''Cancer death'', ''Population''],
      rows = [[Some 1, Some 1, Some 0, Some 100],
              [Some 2, Some 2, Some 1, Some 100],
              [Some 3, Some 3, Some 1, Some 100]]\<rparr>"

definition deaths_without_cancers :: dataframe where
  "deaths_without_cancers =
     \<lparr>columns = [''Age'', ''Cancer'', ''Cancer death'', ''Population''],
      rows = [[Some 1, Some 0, Some 5, Some 100]]\<rparr>"

definition age_only :: dataframe where
  "age_only = \<lparr>columns = [''Age''], rows = [[Some 1], [Some 2]]\<rparr>"

definition all_zero :: dataframe where
  "all_zero =
     \<lparr>columns = [''Age'', ''Cancer'', ''Cancer death'', ''Population'', ''Total test''],
      rows = [[Some 1, Some 0, Some 0, Some 0, Some 0],
              [Some 2, Some 0, Some 0, Some 0, Some 0]]\<rparr>"

definition tests_only_cyto :: dataframe where
  "tests_only_cyto =
     \<lparr>columns = [''Age'', ''Cancer'', ''Cancer death'', ''Population'', ''Cyto''],
      rows = [[Some 1, Some 1, Some 0, Some 50, Some 7],
              [Some 2, Some 0, Some 1, Some 50, None]]\<rparr>"

text \<open>Directories: with the file of strategy 1 only; with every file but that of strategy 2.\<close>

definition only_first :: "dataframe \<Rightarrow> filesystem" where
  "only_first df = Map.empty(filename 1 \<mapsto> df)"

definition all_but_second :: filesystem where
  "all_but_second = (\<lambda>f. if f = filename 2 then None else Some series_123)"

section \<open>Columns and their sums\<close>

lemma col_index_None_iff: "col_index c hs = None \<longleftrightarrow> c \<notin> set hs"
  by (induction hs) auto

lemma getitem_cases:
  "getitem df c =
     (if c \<in> set (columns df)
      then Inr (map (\<lambda>r. cell_at r (the (col_index c (columns df)))) (rows df))
      else Inl (KeyError c))"
proof (cases "col_index c (columns df)")
  case None
  then show ?thesis using col_index_None_iff [of c "columns df"] by (simp add: getitem_def)
next
  case (Some i)
  then show ?thesis using col_index_None_iff [of c "columns df"] by (simp add: getitem_def)
qed

lemma sum_if_present_eq: "sum_if_present df c = Inr (column_total df c)"
  by (simp add: sum_if_present_def column_total_def getitem_cases)

lemma column_total_absent: "c \<notin> set (columns df) \<Longrightarrow> column_total df c = 0"
  by (simp add: column_total_def getitem_cases)

section \<open>What calculate_metrics returns\<close>

lemma calculate_metrics_succeeds:
  assumes "set required_columns \<subseteq> set (columns df)"
  shows "\<exists>m. calculate_metrics (Some df) = Inr (Some m)"
  using assms
  by (simp add: calculate_metrics_def required_columns_def getitem_cases sum_if_present_def)

lemma calculate_metrics_raises:
  assumes "\<not> set required_columns \<subseteq> set (columns df)"
  shows "\<exists>c \<in> set required_columns. calculate_metrics (Some df) = Inl (KeyError c)"
  using assms
  by (auto simp: calculate_metrics_def required_columns_def getitem_cases)

lemma calculate_metrics_not_absent: "calculate_metrics (Some df) \<noteq> Inr None"
  by (simp add: calculate_metrics_def getitem_cases sum_if_present_def)

lemma calculate_metrics_eq:
  assumes "set required_columns \<subseteq> set (columns df)"
  shows "calculate_metrics (Some df) = Inr (Some (calculate_rates
             \<lparr>total_cancers = column_total df ''Cancer'',
              total_cancer_deaths = column_total df ''Cancer death'',
              total_life_years = column_total df ''Population'',
              total_tests = column_total df ''Total test'',
              total_cyto = column_total df ''Cyto'',
              total_hpv = column_total df ''HPV'',
              total_cotest = column_total df ''Cotest'',
              total_cin2_detected = column_total df ''CIN2 detected'',
              total_cin3_detected = column_total df ''CIN3 detected'',
              case_fatality_rate = 0,
              cancer_rate_per_100k = 0,
              death_rate_per_100k = 0\<rparr>))"
proof -
  from assms have
    "getitem df ''Cancer''
       = Inr (map (\<lambda>r. cell_at r (the (col_index ''Cancer'' (columns df)))) (rows df))"
    "getitem df ''Cancer death''
       = Inr (map (\<lambda>r. cell_at r (the (col_index ''Cancer death'' (columns df)))) (rows df))"
    "getitem df ''Population''
       = Inr (map (\<lambda>r. cell_at r (the (col_index ''Population'' (columns df)))) (rows df))"
    by (simp_all add: required_columns_def getitem_cases)
  then show ?thesis
    by (simp add: calculate_metrics_def sum_if_present_eq column_total_def)
qed

lemma calculate_rates_totals:
  "total_cancers (calculate_rates t) = total_cancers t"
  "total_cancer_deaths (calculate_rates t) = total_cancer_deaths t"
  "total_life_years (calculate_rates t) = total_life_years t"
  "total_tests (calculate_rates t) = total_tests t"
  "total_cyto (calculate_rates t) = total_cyto t"
  "total_hpv (calculate_rates t) = total_hpv t"
  "total_cotest (calculate_rates t) = total_cotest t"
  "total_cin2_detected (calculate_rates t) = total_cin2_detected t"
  "total_cin3_detected (calculate_rates t) = total_cin3_detected t"
  by (simp_all add: calculate_rates_def Let_def)

text \<open>
  C1. Whenever \<open>calculate_metrics\<close> returns a record, its case fatality rate is deaths
  over cancers times 100 when the total of cancers is positive and 0 otherwise, and its
  cancer and death rates per 100k are the total over the life-years times 100000 when the
  life-years are positive and 0 otherwise. It returns a record for every table with the
  three indexed columns. For the table with no cancers and five deaths the case fatality
  rate is 0.
\<close>

theorem calculate_metrics_rates:
  "(set required_columns \<subseteq> set (columns df)
      \<longrightarrow> (\<exists>m. calculate_metrics (Some df) = Inr (Some m)))
   \<and> (\<forall>m. calculate_metrics (Some df) = Inr (Some m) \<longrightarrow>
         case_fatality_rate m =
           (if total_cancers m > 0 then total_cancer_deaths m / total_cancers m * 100 else 0)
       \<and> cancer_rate_per_100k m =
           (if total_life_years m > 0
            then total_cancers m / total_life_years m * 100000 else 0)
       \<and> death_rate_per_100k m =
           (if total_life_years m > 0
            then total_cancer_deaths m / total_life_years m * 100000 else 0))
   \<and> (\<exists>m. calculate_metrics (Some deaths_without_cancers) = Inr (Some m)
         \<and> total_cancers m = 0 \<and> total_cancer_deaths m = 5 \<and> case_fatality_rate m = 0)"
proof (intro conjI allI impI)
  assume "set required_columns \<subseteq> set (columns df)"
  then show "\<exists>m. calculate_metrics (Some df) = Inr (Some m)"
    by (rule calculate_metrics_succeeds)
next
  fix m assume m: "calculate_metrics (Some df) = Inr (Some m)"
  then obtain t where t: "m = calculate_rates t"
    by (auto simp: calculate_metrics_def split: sum.splits)
  show "case_fatality_rate m =
           (if total_cancers m > 0 then total_cancer_deaths m / total_cancers m * 100 else 0)"
    unfolding t by (simp add: calculate_rates_def Let_def)
  show "cancer_rate_per_100k m =
           (if total_life_years m > 0 then total_cancers m / total_life_years m * 100000 else 0)"
    unfolding t by (simp add: calculate_rates_def Let_def)
  show "death_rate_per_100k m =
           (if total_life_years m > 0
            then total_cancer_deaths m / total_life_years m * 100000 else 0)"
    unfolding t by (simp add: calculate_rates_def Let_def)
next
  show "\<exists>m. calculate_metrics (Some deaths_without_cancers) = Inr (Some m)
         \<and> total_cancers m = 0 \<and> total_cancer_deaths m = 5 \<and> case_fatality_rate m = 0"
    by (simp add: calculate_metrics_def deaths_without_cancers_def getitem_def
        sum_if_present_def series_sum_def cell_value_def cell_at_def calculate_rates_def)
qed

theorem calculate_metrics_rates_witness:
  "set required_columns \<subseteq> set (columns tests_only_cyto)
   \<and> calculate_metrics (Some tests_only_cyto) = Inr (Some
        \<lparr>total_cancers = 1, total_cancer_deaths = 1, total_life_years = 100,
         total_tests = 0, total_cyto = 7, total_hpv = 0, total_cotest = 0,
         total_cin2_detected = 0, total_cin3_detected = 0,
         case_fatality_rate = 1 / 1 * 100, cancer_rate_per_100k = 1 / 100 * 100000,
         death_rate_per_100k = 1 / 100 * 100000\<rparr>)"
proof -
  have req: "set required_columns \<subseteq> set (columns tests_only_cyto)"
    by (simp add: required_columns_def tests_only_cyto_def)
  with calculate_metrics_rates [of tests_only_cyto] obtain m where
    m: "calculate_metrics (Some tests_only_cyto) = Inr (Some m)" by blast
  with calculate_metrics_rates [of tests_only_cyto] have
    "case_fatality_rate m =
       (if total_cancers m > 0 then total_cancer_deaths m / total_cancers m * 100 else 0)"
    by blast
  moreover have "calculate_metrics (Some tests_only_cyto) = Inr (Some
        \<lparr>total_cancers = 1, total_cancer_deaths = 1, total_life_years = 100,
         total_tests = 0, total_cyto = 7, total_hpv = 0, total_cotest = 0,
         total_cin2_detected = 0, total_cin3_detected = 0,
         case_fatality_rate = 100, cancer_rate_per_100k = 1000,
         death_rate_per_100k = 1000\<rparr>)"
    by (simp add: calculate_metrics_def tests_only_cyto_def getitem_def sum_if_present_def
        series_sum_def cell_value_def cell_at_def calculate_rates_def)
  ultimately show ?thesis using req by simp
qed

text \<open>
  C2. The three-row series with ages 1 to 3, cancers 1, 2, 3, deaths 0, 1, 1 and a
  population of 100 at each age, with no other column, gives 6 cancers, 2 deaths,
  300 life-years, a case fatality rate of 200/6, a cancer rate of 2000 per 100k and a
  death rate of 200000/300 per 100k; the totals of the absent columns are 0.
\<close>

theorem calculate_metrics_series_123:
  "calculate_metrics (Some series_123) = Inr (Some
    \<lparr>total_cancers = 6, total_cancer_deaths = 2, total_life_years = 300,
     total_tests = 0, total_cyto = 0, total_hpv = 0, total_cotest = 0,
     total_cin2_detected = 0, total_cin3_detected = 0,
     case_fatality_rate = 200 / 6, cancer_rate_per_100k = 2000,
     death_rate_per_100k = 200000 / 300\<rparr>)"
  by (simp add: calculate_metrics_def series_123_def getitem_def sum_if_present_def
      series_sum_def cell_value_def cell_at_def calculate_rates_def)

text \<open>
  C3, as claimed: every table with an \<open>Age\<close> column is aggregated without an error, a
  column it lacks counting as zero. The table with the \<open>Age\<close> column alone refutes it:
  \<open>calculate_metrics\<close> raises KeyError at \<open>Cancer\<close>.
\<close>

theorem calculate_metrics_age_only_raises:
  "''Age'' \<in> set (columns age_only)
   \<and> calculate_metrics (Some age_only) = Inl (KeyError ''Cancer'')"
  by (simp add: calculate_metrics_def age_only_def getitem_def)

text \<open>
  C3, amended: every table with the columns \<open>Cancer\<close>, \<open>Cancer death\<close> and
  \<open>Population\<close> is aggregated without an error, and each of \<open>Total test\<close>, \<open>Cyto\<close>,
  \<open>HPV\<close>, \<open>Cotest\<close>, \<open>CIN2 detected\<close> and \<open>CIN3 detected\<close> that the table lacks has
  the total 0.
\<close>

theorem calculate_metrics_optional_columns:
  assumes "set required_columns \<subseteq> set (columns df)"
  shows "\<exists>m. calculate_metrics (Some df) = Inr (Some m)
     \<and> (''Total test'' \<notin> set (columns df) \<longrightarrow> total_tests m = 0)
     \<and> (''Cyto'' \<notin> set (columns df) \<longrightarrow> total_cyto m = 0)
     \<and> (''HPV'' \<notin> set (columns df) \<longrightarrow> total_hpv m = 0)
     \<and> (''Cotest'' \<notin> set (columns df) \<longrightarrow> total_cotest m = 0)
     \<and> (''CIN2 detected'' \<notin> set (columns df) \<longrightarrow> total_cin2_detected m = 0)
     \<and> (''CIN3 detected'' \<notin> set (columns df) \<longrightarrow> total_cin3_detected m = 0)"
  unfolding calculate_metrics_eq [OF assms]
  by (simp add: calculate_rates_totals column_total_absent)

theorem calculate_metrics_optional_columns_witness:
  "set required_columns \<subseteq> set (columns tests_only_cyto)
   \<and> ''Cyto'' \<in> set (columns tests_only_cyto)
   \<and> (\<exists>m. calculate_metrics (Some tests_only_cyto) = Inr (Some m)
        \<and> total_tests m = 0 \<and> total_hpv m = 0 \<and> total_cotest m = 0
        \<and> total_cin2_detected m = 0 \<and> total_cin3_detected m = 0)"
proof -
  have req: "set required_columns \<subseteq> set (columns tests_only_cyto)"
    by (simp add: required_columns_def tests_only_cyto_def)
  have cyto: "''Cyto'' \<in> set (columns tests_only_cyto)"
    by (simp add: tests_only_cyto_def)
  have absent: "''Total test'' \<notin> set (columns tests_only_cyto)"
    "''HPV'' \<notin> set (columns tests_only_cyto)" "''Cotest'' \<notin> set (columns tests_only_cyto)"
    "''CIN2 detected'' \<notin> set (columns tests_only_cyto)"
    "''CIN3 detected'' \<notin> set (columns tests_only_cyto)"
    by (simp_all add: tests_only_cyto_def)
  from calculate_metrics_optional_columns [OF req] absent req cyto show ?thesis by blast
qed

section \<open>Decimal strings and sort keys\<close>

lemma digit_char_range: "digit_char d \<in> set ''0123456789''"
proof -
  have "d mod 10 < length ''0123456789''" by simp
  then show ?thesis unfolding digit_char_def by (rule nth_mem)
qed

lemma digit_val_nth:
  assumes "distinct ds" and "k < length ds"
  shows "length (takeWhile (\<lambda>d. d \<noteq> ds ! k) ds) = k"
  using assms
proof (induction ds arbitrary: k)
  case Nil
  then show ?case by simp
next
  case (Cons a ds)
  show ?case
  proof (cases k)
    case 0
    then show ?thesis by simp
  next
    case (Suc j)
    with Cons.prems have "a \<noteq> ds ! j" by auto
    with Cons Suc show ?thesis by simp
  qed
qed

lemma digit_val_digit_char: "d < 10 \<Longrightarrow> digit_val (digit_char d) = d"
proof -
  assume d: "d < 10"
  have "distinct ''0123456789''" by simp
  moreover from d have "d mod 10 < length ''0123456789''" by simp
  ultimately have "length (takeWhile (\<lambda>c. c \<noteq> ''0123456789'' ! (d mod 10)) ''0123456789'') = d mod 10"
    by (rule digit_val_nth)
  with d show ?thesis by (simp add: digit_val_def digit_char_def)
qed

lemma isdigit_string_of_nat: "isdigit (string_of_nat n)"
proof (induction n rule: string_of_nat.induct)
  case (1 n)
  show ?case
  proof (cases "n < 10")
    case True
    then show ?thesis
      using digit_char_range [of n]
      by (subst string_of_nat.simps) (simp add: isdigit_def)
  next
    case False
    with 1 show ?thesis
      using digit_char_range [of "n mod 10"]
      by (subst string_of_nat.simps) (simp add: isdigit_def)
  qed
qed

lemma int_of_string_of_nat: "int_of_string (string_of_nat n) = n"
proof (induction n rule: string_of_nat.induct)
  case (1 n)
  show ?case
  proof (cases "n < 10")
    case True
    then show ?thesis
      by (subst string_of_nat.simps) (simp add: int_of_string_def digit_val_digit_char)
  next
    case False
    have "n mod 10 < 10" by simp
    then have "digit_val (digit_char (n mod 10)) = n mod 10"
      by (rule digit_val_digit_char)
    with False 1 show ?thesis
      by (subst string_of_nat.simps) (simp add: int_of_string_def)
  qed
qed

lemma string_of_nat_inj: "string_of_nat i = string_of_nat j \<longleftrightarrow> i = j"
  using int_of_string_of_nat by metis

lemma filename_inj: "filename i = filename j \<longleftrightarrow> i = j"
  by (simp add: filename_def string_of_nat_inj)

lemma sort_key_string_of_nat:
  "overview_sort_key (string_of_nat n) = (if n \<le> 9 then n else n + 3)"
  by (simp add: overview_sort_key_def isdigit_string_of_nat int_of_string_of_nat)

lemma map_insort_key:
  "map f (insort_key (\<lambda>x. k (f x)) a ys) = insort_key k (f a) (map f ys)"
  by (induction ys) auto

lemma map_sort_key:
  "map f (sort_key (\<lambda>x. k (f x)) xs) = sort_key k (map f xs)"
  by (induction xs) (auto simp: map_insort_key)

lemma sort_keys_equal: "overview_sort_key = detailed_sort_key"
  by (rule ext) (simp add: overview_sort_key_def detailed_sort_key_def)

lemma overview_order:
  "map ov_Strategy (create_strategy_overview_table df) = sort_key overview_sort_key (map Display df)"
  by (simp add: create_strategy_overview_table_def map_sort_key o_def)

lemma detailed_order:
  "map dt_Strategy (detailed_comparison_table df) = sort_key detailed_sort_key (map Display df)"
  by (simp add: detailed_comparison_table_def map_sort_key o_def)

lemma strategy_numbers: "[1..<16] = [1, 2, 3, 4, 5, 6, 7, 8, 9, 10, 11, 12, 13, 14, 15 :: nat]"
  by code_simp

lemma catalog_display_all:
  "list_all (\<lambda>i. map_option display (STRATEGY_DEFINITIONS i) = Some (string_of_nat i)) [1..<16]"
  unfolding strategy_numbers
  by (simp add: STRATEGY_DEFINITIONS_def string_of_nat.simps digit_char_def)

lemma catalog_display:
  assumes "i \<in> set [1..<16]"
  shows "\<exists>info. STRATEGY_DEFINITIONS i = Some info \<and> display info = string_of_nat i"
proof -
  from assms catalog_display_all
  have "map_option display (STRATEGY_DEFINITIONS i) = Some (string_of_nat i)"
    unfolding list_all_iff by blast
  then show ?thesis by auto
qed

lemma catalog_dom: "set [1..<16] \<subseteq> dom STRATEGY_DEFINITIONS"
  using catalog_display by blast

section \<open>The loop of load_all_strategies\<close>

lemma loop_result_Nil: "loop_result fs [] st = st"
  by (simp add: loop_result_def)

lemma loop_result_missing:
  assumes "fs (filename i) = None"
  shows "loop_result fs (i # ids) st =
         loop_result fs ids (st\<lparr>shown := shown st @ snd (load_strategy_data fs i)\<rparr>)"
proof -
  have "age_distributions st ++ (\<lambda>j. if j \<in> set (i # ids) then fs (filename j) else None)
      = age_distributions st ++ (\<lambda>j. if j \<in> set ids then fs (filename j) else None)"
    using assms by (intro ext) (simp add: map_add_def)
  then show ?thesis
    using assms by (simp add: loop_result_def loaded_row_def)
qed

lemma loop_result_loaded:
  assumes "fs (filename i) = Some df" and "loaded_row fs i = Some row"
  shows "loop_result fs (i # ids) st =
         loop_result fs ids
           (st\<lparr>age_distributions := (age_distributions st)(i \<mapsto> df),
               shown := shown st @ snd (load_strategy_data fs i),
               results := results st @ [row]\<rparr>)"
proof -
  have "age_distributions st ++ (\<lambda>j. if j \<in> set (i # ids) then fs (filename j) else None)
      = (age_distributions st)(i \<mapsto> df) ++ (\<lambda>j. if j \<in> set ids then fs (filename j) else None)"
    using assms(1) by (intro ext) (auto simp: map_add_def split: option.splits)
  then show ?thesis
    using assms by (simp add: loop_result_def)
qed

text \<open>A loop that ends without an error ends in \<open>loop_result\<close>, and every file it found gave a row.\<close>

lemma load_loop_Inr:
  "load_loop fs ids st = Inr st' \<Longrightarrow>
     st' = loop_result fs ids st
     \<and> (\<forall>i \<in> set ids. fs (filename i) \<noteq> None \<longrightarrow> loaded_row fs i \<noteq> None)"
proof (induction ids arbitrary: st)
  case Nil
  then show ?case by (simp add: loop_result_Nil)
next
  case (Cons i ids)
  show ?case
  proof (cases "fs (filename i)")
    case None
    with Cons.prems
    have "load_loop fs ids (st\<lparr>shown := shown st @ snd (load_strategy_data fs i)\<rparr>) = Inr st'"
      by (simp add: load_strategy_data_def)
    from Cons.IH [OF this] None show ?thesis
      by (simp add: loop_result_missing)
  next
    case (Some df)
    from Cons.prems Some obtain m info where
      m: "calculate_metrics (Some df) = Inr (Some m)" and
      info: "STRATEGY_DEFINITIONS i = Some info"
      by (auto simp: load_strategy_data_def Let_def calculate_metrics_not_absent
          split: sum.splits option.splits)
    let ?row = "make_result i info m"
    have row: "loaded_row fs i = Some ?row"
      using Some m info by (simp add: loaded_row_def)
    from Cons.prems Some m info
    have "load_loop fs ids
           (st\<lparr>age_distributions := (age_distributions st)(i \<mapsto> df),
               shown := shown st @ snd (load_strategy_data fs i),
               results := results st @ [?row]\<rparr>) = Inr st'"
      by (simp add: load_strategy_data_def Let_def)
    from Cons.IH [OF this] row show ?thesis
      using loop_result_loaded [OF Some row] by simp
  qed
qed

text \<open>A loop over well-formed files and catalogued numbers ends without an error.\<close>

lemma load_loop_succeeds:
  assumes "well_formed fs ids" and "set ids \<subseteq> dom STRATEGY_DEFINITIONS"
  shows "\<exists>st'. load_loop fs ids st = Inr st'"
  using assms
proof (induction ids arbitrary: st)
  case Nil
  then show ?case by simp
next
  case (Cons i ids)
  from Cons.prems have wf: "well_formed fs ids" and sub: "set ids \<subseteq> dom STRATEGY_DEFINITIONS"
    by (simp_all add: well_formed_def)
  show ?case
  proof (cases "fs (filename i)")
    case None
    then show ?thesis
      using Cons.IH [OF wf sub] by (simp add: load_strategy_data_def)
  next
    case (Some df)
    with Cons.prems have "set required_columns \<subseteq> set (columns df)"
      by (simp add: well_formed_def)
    then obtain m where m: "calculate_metrics (Some df) = Inr (Some m)"
      using calculate_metrics_succeeds by blast
    from Cons.prems obtain info where info: "STRATEGY_DEFINITIONS i = Some info"
      by auto
    show ?thesis
      using Cons.IH [OF wf sub] Some m info by (simp add: load_strategy_data_def Let_def)
  qed
qed

text \<open>An error of the loop is the KeyError of a table that was found.\<close>

lemma load_loop_Inl:
  assumes "load_loop fs ids st = Inl e" and "set ids \<subseteq> dom STRATEGY_DEFINITIONS"
  shows "\<exists>i \<in> set ids. \<exists>df. fs (filename i) = Some df \<and> calculate_metrics (Some df) = Inl e"
  using assms
proof (induction ids arbitrary: st)
  case Nil
  then show ?case by simp
next
  case (Cons i ids)
  from Cons.prems have sub: "set ids \<subseteq> dom STRATEGY_DEFINITIONS" by simp
  from Cons.prems obtain info where info: "STRATEGY_DEFINITIONS i = Some info" by auto
  show ?case
  proof (cases "fs (filename i)")
    case None
    with Cons.prems
    have "load_loop fs ids (st\<lparr>shown := shown st @ snd (load_strategy_data fs i)\<rparr>) = Inl e"
      by (simp add: load_strategy_data_def)
    from Cons.IH [OF this sub] show ?thesis by auto
  next
    case (Some df)
    show ?thesis
    proof (cases "calculate_metrics (Some df)")
      case (Inl e')
      with Cons.prems Some have "e' = e"
        by (simp add: load_strategy_data_def Let_def)
      with Inl Some show ?thesis by auto
    next
      case (Inr mo)
      then obtain m where m: "mo = Some m"
        using calculate_metrics_not_absent [of df] by (cases mo) auto
      from Cons.prems Some Inr m info obtain st1 where "load_loop fs ids st1 = Inl e"
        by (simp add: load_strategy_data_def Let_def)
      from Cons.IH [OF this sub] show ?thesis by auto
    qed
  qed
qed

lemma map_filter_Strategy:
  "map Strategy (List.map_filter (loaded_row fs) ids) = filter (\<lambda>i. loaded_row fs i \<noteq> None) ids"
proof (induction ids)
  case Nil
  then show ?case by simp
next
  case (Cons i ids)
  then show ?case
    by (auto simp: loaded_row_def make_result_def
        split: option.splits sum.splits)
qed

lemma loaded_row_Some:
  assumes "loaded_row fs i = Some r"
  shows "\<exists>df m info. fs (filename i) = Some df \<and> calculate_metrics (Some df) = Inr (Some m)
           \<and> STRATEGY_DEFINITIONS i = Some info \<and> r = make_result i info m"
  using assms by (auto simp: loaded_row_def split: option.splits sum.splits)

lemma loaded_row_missing: "fs (filename i) = None \<Longrightarrow> loaded_row fs i = None"
  by (simp add: loaded_row_def)

lemma set_map_filter: "set (List.map_filter f xs) = {y. \<exists>x \<in> set xs. f x = Some y}"
  by (induction xs) (auto simp: split: option.splits)

lemma load_all_strategies_Inr:
  assumes "load_all_strategies fs = Inr st"
  shows "results st = List.map_filter (loaded_row fs) [1..<16]"
    and "age_distributions st = (\<lambda>i. if i \<in> set [1..<16] then fs (filename i) else None)"
    and "map Strategy (results st) = filter (\<lambda>i. fs (filename i) \<noteq> None) [1..<16]"
proof -
  from assms have *: "st = loop_result fs [1..<16] \<lparr>results = [], age_distributions = Map.empty, shown = []\<rparr>"
    and **: "\<forall>i \<in> set [1..<16]. fs (filename i) \<noteq> None \<longrightarrow> loaded_row fs i \<noteq> None"
    unfolding load_all_strategies_def by (auto dest: load_loop_Inr)
  show r: "results st = List.map_filter (loaded_row fs) [1..<16]"
    unfolding * by (simp add: loop_result_def)
  show "age_distributions st = (\<lambda>i. if i \<in> set [1..<16] then fs (filename i) else None)"
    unfolding * by (simp add: loop_result_def)
  have "(loaded_row fs i \<noteq> None) = (fs (filename i) \<noteq> None)" if "i \<in> set [1..<16]" for i
  proof (cases "fs (filename i)")
    case None
    then show ?thesis by (simp add: loaded_row_missing)
  next
    case (Some df)
    then have "fs (filename i) \<noteq> None" by simp
    with ** [rule_format, OF that] show ?thesis by simp
  qed
  then have "filter (\<lambda>i. loaded_row fs i \<noteq> None) [1..<16]
      = filter (\<lambda>i. fs (filename i) \<noteq> None) [1..<16]"
    by (rule filter_cong [OF refl])
  then show "map Strategy (results st) = filter (\<lambda>i. fs (filename i) \<noteq> None) [1..<16]"
    unfolding r map_filter_Strategy by simp
qed

lemma load_all_strategies_succeeds:
  "well_formed fs [1..<16] \<Longrightarrow> \<exists>st. load_all_strategies fs = Inr st"
  unfolding load_all_strategies_def by (rule load_loop_succeeds [OF _ catalog_dom])

lemma load_all_strategies_Inl:
  "load_all_strategies fs = Inl e \<Longrightarrow>
     \<exists>i \<in> set [1..<16]. \<exists>df. fs (filename i) = Some df \<and> calculate_metrics (Some df) = Inl e"
  unfolding load_all_strategies_def by (rule load_loop_Inl [OF _ catalog_dom])

section \<open>Rows of the summary\<close>

lemma results_rows:
  assumes "load_all_strategies fs = Inr st" and "r \<in> set (results st)"
  shows "\<exists>df m info. Strategy r \<in> set [1..<16] \<and> fs (filename (Strategy r)) = Some df
           \<and> calculate_metrics (Some df) = Inr (Some m)
           \<and> STRATEGY_DEFINITIONS (Strategy r) = Some info
           \<and> r = make_result (Strategy r) info m"
proof -
  from assms obtain i where i: "i \<in> set [1..<16]" and r: "loaded_row fs i = Some r"
    unfolding load_all_strategies_Inr(1) [OF assms(1)] set_map_filter by blast
  from loaded_row_Some [OF r] obtain df m info where
    *: "fs (filename i) = Some df" "calculate_metrics (Some df) = Inr (Some m)"
       "STRATEGY_DEFINITIONS i = Some info" "r = make_result i info m"
    by blast
  then have s: "Strategy r = i" by (simp add: make_result_def)
  show ?thesis
    unfolding s using i * by (intro exI [of _ df] exI [of _ m] exI [of _ info]) simp
qed

lemma results_Display:
  assumes "load_all_strategies fs = Inr st" and "r \<in> set (results st)"
  shows "Display r = string_of_nat (Strategy r)"
proof -
  from results_rows [OF assms] obtain m info where
    i: "Strategy r \<in> set [1..<16]" and info: "STRATEGY_DEFINITIONS (Strategy r) = Some info"
    and r: "r = make_result (Strategy r) info m"
    by blast
  from catalog_display [OF i] info have "display info = string_of_nat (Strategy r)" by simp
  moreover have "Display (make_result (Strategy r) info m) = display info"
    by (simp add: make_result_def)
  with r have "Display r = display info" by simp
  ultimately show ?thesis by simp
qed

lemma results_sorted:
  assumes "load_all_strategies fs = Inr st"
  shows "sorted (map Strategy (results st))"
  unfolding load_all_strategies_Inr(3) [OF assms] by (rule sorted_wrt_filter) simp

lemma key_mono: "i \<le> j \<Longrightarrow> (if i \<le> 9 then i else i + 3) \<le> (if j \<le> 9 then j else j + (3::nat))"
  by simp

lemma sorted_keys:
  "sorted xs \<Longrightarrow> sorted (map (\<lambda>i. if i \<le> 9 then i else i + (3::nat)) xs)"
  by (induction xs) (auto simp: key_mono)

lemma results_keys_sorted:
  assumes "load_all_strategies fs = Inr st"
  shows "sorted (map overview_sort_key (map Display (results st)))"
proof -
  have key: "\<And>r. r \<in> set (results st) \<Longrightarrow>
          overview_sort_key (Display r) = (if Strategy r \<le> 9 then Strategy r else Strategy r + 3)"
    using results_Display [OF assms] by (simp add: sort_key_string_of_nat)
  have "map overview_sort_key (map Display (results st))
      = map (\<lambda>i. if i \<le> 9 then i else i + 3) (map Strategy (results st))"
    unfolding map_map by (rule map_cong [OF refl]) (simp add: key)
  then show ?thesis
    using sorted_keys [OF results_sorted [OF assms]] by (simp only:)
qed

text \<open>
  C7, amended: the key written in \<open>create_strategy_overview_table\<close> and the key
  written again before the detailed comparison table are the same function: a label of
  digits whose value is at most 9 has that value as its key, a larger one the value plus
  3; the label of strategy \<open>n\<close> has the key \<open>n\<close> or \<open>n + 3\<close> accordingly. Number 5
  is below number 10, and the label \<open>10\<close> has the key 13. The two tables list the
  strategies in the same order, for every summary. The charts do not use this key: they
  sort by the strategy number. On a summary made by \<open>load_all_strategies\<close> the key of a
  row is its number, or its number plus 3 above 9, and the order of the charts is the
  order of the tables.
\<close>

theorem display_sort_keys_agree:
  "(\<forall>x. overview_sort_key x = detailed_sort_key x)
   \<and> (\<forall>x. isdigit x \<longrightarrow> overview_sort_key x
          = (if int_of_string x \<le> 9 then int_of_string x else int_of_string x + 3))
   \<and> (\<forall>n. overview_sort_key (string_of_nat n) = (if n \<le> 9 then n else n + 3))
   \<and> (5::nat) < 10 \<and> overview_sort_key ''10'' = 13
   \<and> (\<forall>df. map ov_Strategy (create_strategy_overview_table df)
           = map dt_Strategy (detailed_comparison_table df))
   \<and> (\<forall>fs st. load_all_strategies fs = Inr st \<longrightarrow>
         df_sorted (results st) = sort_key Strategy (results st)
       \<and> (\<forall>r \<in> set (results st). overview_sort_key (Display r)
             = (if Strategy r \<le> 9 then Strategy r else Strategy r + 3))
       \<and> map ov_Strategy (create_strategy_overview_table (results st))
           = map Display (df_sorted (results st)))"
proof (intro conjI allI impI ballI)
  fix x show "overview_sort_key x = detailed_sort_key x"
    by (simp add: sort_keys_equal)
next
  fix x assume "isdigit x"
  then show "overview_sort_key x
          = (if int_of_string x \<le> 9 then int_of_string x else int_of_string x + 3)"
    by (simp add: overview_sort_key_def)
next
  fix n show "overview_sort_key (string_of_nat n) = (if n \<le> 9 then n else n + 3)"
    by (rule sort_key_string_of_nat)
next
  show "(5::nat) < 10" by simp
next
  show "overview_sort_key ''10'' = 13"
    by (simp add: overview_sort_key_def isdigit_def int_of_string_def digit_val_def)
next
  fix df show "map ov_Strategy (create_strategy_overview_table df)
           = map dt_Strategy (detailed_comparison_table df)"
    by (simp add: overview_order detailed_order sort_keys_equal)
next
  fix fs :: filesystem and st :: load_state
  show "df_sorted (results st) = sort_key Strategy (results st)"
    by (rule df_sorted_def)
next
  fix fs st r assume "load_all_strategies fs = Inr st" and "r \<in> set (results st)"
  from results_Display [OF this]
  show "overview_sort_key (Display r) = (if Strategy r \<le> 9 then Strategy r else Strategy r + 3)"
    by (simp add: sort_key_string_of_nat)
next
  fix fs st assume st: "load_all_strategies fs = Inr st"
  have "df_sorted (results st) = results st"
    unfolding df_sorted_def using results_sorted [OF st] by (rule sort_key_id_if_sorted)
  moreover have "sort_key overview_sort_key (map Display (results st)) = map Display (results st)"
    using results_keys_sorted [OF st] by (simp add: sort_key_id_if_sorted)
  ultimately show "map ov_Strategy (create_strategy_overview_table (results st))
           = map Display (df_sorted (results st))"
    by (simp add: overview_order)
qed

lemma well_formed_only_first:
  "set required_columns \<subseteq> set (columns df) \<Longrightarrow> well_formed (only_first df) ids"
  by (simp add: well_formed_def only_first_def)

lemma well_formed_all_but_second: "well_formed all_but_second ids"
  by (simp add: well_formed_def all_but_second_def required_columns_def series_123_def)

lemma present_only_first:
  "filter (\<lambda>i. only_first df (filename i) \<noteq> None) [1..<16] = [1]"
  unfolding strategy_numbers by (simp add: only_first_def filename_inj)

lemma present_all_but_second:
  "filter (\<lambda>i. all_but_second (filename i) \<noteq> None) [1..<16]
     = [1, 3, 4, 5, 6, 7, 8, 9, 10, 11, 12, 13, 14, 15]"
  unfolding strategy_numbers by (simp add: all_but_second_def filename_inj)


theorem display_sort_keys_agree_witness:
  "isdigit ''12'' \<and> overview_sort_key ''12'' = 15
   \<and> (\<exists>st. load_all_strategies all_but_second = Inr st
        \<and> map Strategy (results st) = [1, 3, 4, 5, 6, 7, 8, 9, 10, 11, 12, 13, 14, 15]
        \<and> map ov_Strategy (create_strategy_overview_table (results st))
           = map Display (df_sorted (results st)))"
proof -
  have d: "isdigit ''12''" by (simp add: isdigit_def)
  have v: "int_of_string ''12'' = 12" by (simp add: int_of_string_def digit_val_def)
  from display_sort_keys_agree [THEN conjunct2, THEN conjunct1, THEN spec, THEN mp, OF d]
  have "overview_sort_key ''12''
      = (if int_of_string ''12'' \<le> 9 then int_of_string ''12'' else int_of_string ''12'' + 3)" .
  with v have k: "overview_sort_key ''12'' = 15" by simp
  obtain st where st: "load_all_strategies all_but_second = Inr st"
    using load_all_strategies_succeeds [OF well_formed_all_but_second] by (elim exE)
  from display_sort_keys_agree [THEN conjunct2, THEN conjunct2, THEN conjunct2,
      THEN conjunct2, THEN conjunct2, THEN conjunct2, THEN spec, THEN spec, THEN mp, OF st,
      THEN conjunct2, THEN conjunct2]
  have o: "map ov_Strategy (create_strategy_overview_table (results st))
           = map Display (df_sorted (results st))" .
  have s: "map Strategy (results st) = [1, 3, 4, 5, 6, 7, 8, 9, 10, 11, 12, 13, 14, 15]"
    using load_all_strategies_Inr(3) [OF st] present_all_but_second by simp
  from st s o have "\<exists>st. load_all_strategies all_but_second = Inr st
        \<and> map Strategy (results st) = [1, 3, 4, 5, 6, 7, 8, 9, 10, 11, 12, 13, 14, 15]
        \<and> map ov_Strategy (create_strategy_overview_table (results st))
           = map Display (df_sorted (results st))"
    by (intro exI [of _ st] conjI)
  with d k show ?thesis by (intro conjI)
qed

text \<open>
  C7, as claimed: every component that orders the strategies for display uses one shared
  key, which gives strategy 10 the key 13. In the summary made from every file but that
  of strategy 2, the row of strategy 10 has the key 13 in both tables, and the charts
  sort the summary by the strategy number, which is 10 for that row.
\<close>

theorem charts_sort_by_strategy_number:
  "\<not> isl (load_all_strategies all_but_second)
   \<and> df_sorted (results (projr (load_all_strategies all_but_second)))
       = sort_key Strategy (results (projr (load_all_strategies all_but_second)))
   \<and> Strategy (results (projr (load_all_strategies all_but_second)) ! 8) = 10
   \<and> overview_sort_key (Display (results (projr (load_all_strategies all_but_second)) ! 8)) = 13
   \<and> detailed_sort_key (Display (results (projr (load_all_strategies all_but_second)) ! 8)) = 13"
proof -
  obtain st where st: "load_all_strategies all_but_second = Inr st"
    using load_all_strategies_succeeds [OF well_formed_all_but_second] by (elim exE)
  have ids: "map Strategy (results st) = [1, 3, 4, 5, 6, 7, 8, 9, 10, 11, 12, 13, 14, 15]"
    using load_all_strategies_Inr(3) [OF st] present_all_but_second by simp
  then have "length (map Strategy (results st)) = 14" by simp
  then have len: "8 < length (results st)" by simp
  then have mem: "results st ! 8 \<in> set (results st)" by (rule nth_mem)
  from len have "Strategy (results st ! 8) = map Strategy (results st) ! 8" by simp
  with ids have ten: "Strategy (results st ! 8) = 10" by simp
  from results_Display [OF st mem] ten
  have "overview_sort_key (Display (results st ! 8)) = overview_sort_key (string_of_nat 10)"
    by simp
  then have key: "overview_sort_key (Display (results st ! 8)) = 13"
    by (simp add: sort_key_string_of_nat)
  then have key': "detailed_sort_key (Display (results st ! 8)) = 13"
    by (simp add: sort_keys_equal [symmetric])
  have "df_sorted (results st) = sort_key Strategy (results st)"
    by (rule df_sorted_def)
  with ten key key' show ?thesis unfolding st by simp
qed

section \<open>Missing files\<close>

lemma ids_set: "set [1..<16] = {1..15::nat}"
  by auto

lemma age_only_KeyError: "calculate_metrics (Some age_only) = Inl (KeyError ''Cancer'')"
  by (simp add: calculate_metrics_def age_only_def getitem_def)

lemma load_all_age_only:
  "load_all_strategies (only_first age_only) = Inl (KeyError ''Cancer'')"
proof -
  have "[1..<16] = 1 # [2..<16]" by (simp add: upt_conv_Cons)
  moreover have "only_first age_only (filename 1) = Some age_only"
    by (simp add: only_first_def)
  ultimately show ?thesis
    by (simp add: load_all_strategies_def load_strategy_data_def age_only_KeyError Let_def)
qed

lemma length_all_but_one:
  assumes "k \<in> {1..15::nat}"
  shows "length (filter (\<lambda>i. i \<noteq> k) [1..<16]) = 14"
proof -
  have "length (filter (\<lambda>i. i \<noteq> k) [1..<16]) = card ({i. i \<noteq> k} \<inter> set [1..<16])"
    by (rule distinct_length_filter) simp
  also have "{i. i \<noteq> k} \<inter> set [1..<16] = {1..<16} - {k}" by auto
  also have "card ({1..<16} - {k}) = 14" using assms by simp
  finally show ?thesis .
qed

text \<open>
  C4. \<open>load_strategy_data\<close> returns \<open>None\<close> for exactly the strategy numbers whose file
  does not exist, and never an error. The loop goes on after each of them: a summary that
  \<open>load_all_strategies\<close> returns has one row for each file that exists, in ascending
  order of the numbers, each row made of the metrics of that file's table and its catalog
  entry. A summary is returned whenever the files that exist have the three indexed
  columns, and the only error is the KeyError of a table that was found: a missing file
  never stops the others.
\<close>

theorem missing_strategies_are_skipped:
  "(\<forall>i. fst (load_strategy_data fs i) = fs (filename i))
   \<and> (well_formed fs [1..<16] \<longrightarrow> (\<exists>st. load_all_strategies fs = Inr st))
   \<and> (\<forall>st. load_all_strategies fs = Inr st \<longrightarrow>
         map Strategy (results st) = filter (\<lambda>i. fs (filename i) \<noteq> None) [1..<16]
         \<and> (\<forall>r \<in> set (results st). \<exists>df m info.
               fs (filename (Strategy r)) = Some df
               \<and> calculate_metrics (Some df) = Inr (Some m)
               \<and> STRATEGY_DEFINITIONS (Strategy r) = Some info
               \<and> r = make_result (Strategy r) info m))
   \<and> (\<forall>e. load_all_strategies fs = Inl e \<longrightarrow>
         (\<exists>i \<in> {1..15}. \<exists>df. fs (filename i) = Some df \<and> calculate_metrics (Some df) = Inl e))"
proof (intro conjI allI impI ballI)
  fix i show "fst (load_strategy_data fs i) = fs (filename i)"
    by (simp add: load_strategy_data_def split: option.splits)
next
  assume "well_formed fs [1..<16]"
  then show "\<exists>st. load_all_strategies fs = Inr st"
    by (rule load_all_strategies_succeeds)
next
  fix st assume "load_all_strategies fs = Inr st"
  then show "map Strategy (results st) = filter (\<lambda>i. fs (filename i) \<noteq> None) [1..<16]"
    by (rule load_all_strategies_Inr(3))
next
  fix st r assume "load_all_strategies fs = Inr st" and "r \<in> set (results st)"
  from results_rows [OF this]
  show "\<exists>df m info. fs (filename (Strategy r)) = Some df
               \<and> calculate_metrics (Some df) = Inr (Some m)
               \<and> STRATEGY_DEFINITIONS (Strategy r) = Some info
               \<and> r = make_result (Strategy r) info m"
    by blast
next
  fix e assume "load_all_strategies fs = Inl e"
  from load_all_strategies_Inl [OF this]
  show "\<exists>i \<in> {1..15}. \<exists>df. fs (filename i) = Some df \<and> calculate_metrics (Some df) = Inl e"
    unfolding ids_set .
qed

theorem missing_strategies_are_skipped_witness:
  "well_formed all_but_second [1..<16]
   \<and> fst (load_strategy_data all_but_second 2) = None
   \<and> (\<exists>st. load_all_strategies all_but_second = Inr st
        \<and> map Strategy (results st) = [1, 3, 4, 5, 6, 7, 8, 9, 10, 11, 12, 13, 14, 15])
   \<and> load_all_strategies (only_first age_only) = Inl (KeyError ''Cancer'')
   \<and> (\<exists>i \<in> {1..15}. \<exists>df. only_first age_only (filename i) = Some df
         \<and> calculate_metrics (Some df) = Inl (KeyError ''Cancer''))"
proof -
  note a = missing_strategies_are_skipped [of all_but_second]
  note b = missing_strategies_are_skipped [of "only_first age_only"]
  have wf: "well_formed all_but_second [1..<16]" by (rule well_formed_all_but_second)
  from a [THEN conjunct2, THEN conjunct1] wf
  obtain st where st: "load_all_strategies all_but_second = Inr st" by (elim impE exE)
  from a [THEN conjunct2, THEN conjunct2, THEN conjunct1, rule_format, OF st]
  have "map Strategy (results st) = [1, 3, 4, 5, 6, 7, 8, 9, 10, 11, 12, 13, 14, 15]"
    unfolding present_all_but_second by (rule conjunct1)
  with st have 1: "\<exists>st. load_all_strategies all_but_second = Inr st
        \<and> map Strategy (results st) = [1, 3, 4, 5, 6, 7, 8, 9, 10, 11, 12, 13, 14, 15]"
    by (intro exI [of _ st] conjI)
  from a [THEN conjunct1] have 2: "fst (load_strategy_data all_but_second 2) = None"
    by (simp add: all_but_second_def)
  have 3: "load_all_strategies (only_first age_only) = Inl (KeyError ''Cancer'')"
    by (rule load_all_age_only)
  from b [THEN conjunct2, THEN conjunct2, THEN conjunct2, rule_format, OF 3]
  have 4: "\<exists>i \<in> {1..15}. \<exists>df. only_first age_only (filename i) = Some df
         \<and> calculate_metrics (Some df) = Inl (KeyError ''Cancer'')" .
  from wf 1 2 3 4 show ?thesis by (intro conjI)
qed

lemma dom_age_distributions:
  assumes "load_all_strategies fs = Inr st"
  shows "dom (age_distributions st) = {i \<in> {1..15}. fs (filename i) \<noteq> None}"
  unfolding load_all_strategies_Inr(2) [OF assms] ids_set by (auto split: if_splits)

lemma loaded_tables:
  assumes "load_all_strategies fs = Inr st"
  shows "age_distributions st i = (if i \<in> {1..15} then fs (filename i) else None)"
  unfolding load_all_strategies_Inr(2) [OF assms] ids_set by (rule refl)

lemma length_results_one_missing:
  assumes st: "load_all_strategies fs = Inr st" and k: "k \<in> {1..15}"
    and one: "\<forall>i \<in> {1..15}. (fs (filename i) = None) = (i = k)"
  shows "length (results st) = 14"
proof -
  have "filter (\<lambda>i. fs (filename i) \<noteq> None) [1..<16] = filter (\<lambda>i. i \<noteq> k) [1..<16]"
    using one by (intro filter_cong refl) (simp add: ids_set)
  then have "length (map Strategy (results st)) = 14"
    unfolding load_all_strategies_Inr(3) [OF st] using length_all_but_one [OF k] by simp
  then show ?thesis by simp
qed

text \<open>
  C5, amended: beside the summary, \<open>load_all_strategies\<close> returns the tables it
  loaded, keyed by strategy number: under each number from 1 to 15 whose file exists
  the table of that file, and nothing under any other number. The numbers from 1 to 15
  without a key are the skipped ones, those whose file does not exist. When exactly one
  of the fifteen files does not exist the summary has 14 rows and the only number
  without a key is that one.
\<close>

theorem load_all_strategies_returns_loaded_tables:
  "(well_formed fs [1..<16] \<longrightarrow> (\<exists>st. load_all_strategies fs = Inr st))
   \<and> (\<forall>st. load_all_strategies fs = Inr st \<longrightarrow>
         (\<forall>i. age_distributions st i = (if i \<in> {1..15} then fs (filename i) else None))
       \<and> dom (age_distributions st) = {i \<in> {1..15}. fs (filename i) \<noteq> None}
       \<and> {1..15} - dom (age_distributions st) = {i \<in> {1..15}. fs (filename i) = None}
       \<and> (\<forall>k \<in> {1..15}. (\<forall>i \<in> {1..15}. (fs (filename i) = None) = (i = k)) \<longrightarrow>
             length (results st) = 14 \<and> {1..15} - dom (age_distributions st) = {k}))"
proof (intro conjI allI impI ballI)
  assume "well_formed fs [1..<16]"
  then show "\<exists>st. load_all_strategies fs = Inr st"
    by (rule load_all_strategies_succeeds)
next
  fix st i assume "load_all_strategies fs = Inr st"
  then show "age_distributions st i = (if i \<in> {1..15} then fs (filename i) else None)"
    by (rule loaded_tables)
next
  fix st assume "load_all_strategies fs = Inr st"
  then show "dom (age_distributions st) = {i \<in> {1..15}. fs (filename i) \<noteq> None}"
    by (rule dom_age_distributions)
next
  fix st assume "load_all_strategies fs = Inr st"
  from dom_age_distributions [OF this]
  show "{1..15} - dom (age_distributions st) = {i \<in> {1..15}. fs (filename i) = None}"
    by auto
next
  fix st k
  assume "load_all_strategies fs = Inr st" "k \<in> {1..15}"
    "\<forall>i \<in> {1..15}. (fs (filename i) = None) = (i = k)"
  then show "length (results st) = 14" by (rule length_results_one_missing)
next
  fix st k
  assume st: "load_all_strategies fs = Inr st" and k: "k \<in> {1..15}"
    and one: "\<forall>i \<in> {1..15}. (fs (filename i) = None) = (i = k)"
  have "{1..15} - dom (age_distributions st) = {i \<in> {1..15}. fs (filename i) = None}"
    unfolding dom_age_distributions [OF st] by auto
  also have "\<dots> = {i \<in> {1..15}. i = k}"
    using one by (intro Collect_cong) (simp cong: conj_cong)
  also have "\<dots> = {k}" using k by auto
  finally show "{1..15} - dom (age_distributions st) = {k}" .
qed

lemma all_but_second_missing: "\<forall>i \<in> {1..15}. (all_but_second (filename i) = None) = (i = 2)"
  by (simp add: all_but_second_def filename_inj)

theorem load_all_strategies_returns_loaded_tables_witness:
  "well_formed all_but_second [1..<16]
   \<and> filter (\<lambda>i. all_but_second (filename i) = None) [1..<16] = [2]
   \<and> (\<exists>st. load_all_strategies all_but_second = Inr st
         \<and> age_distributions st 1 = Some series_123
         \<and> age_distributions st 2 = None
         \<and> age_distributions st 16 = None
         \<and> length (results st) = 14 \<and> {1..15} - dom (age_distributions st) = {2})"
proof -
  note a = load_all_strategies_returns_loaded_tables [of all_but_second]
  have wf: "well_formed all_but_second [1..<16]" by (rule well_formed_all_but_second)
  from a [THEN conjunct1] wf
  obtain st where st: "load_all_strategies all_but_second = Inr st" by (elim impE exE)
  note b = a [THEN conjunct2, THEN spec, THEN mp, OF st]
  have k: "(2::nat) \<in> {1..15}" by simp
  from b [THEN conjunct2, THEN conjunct2, THEN conjunct2,
      THEN bspec, OF k, THEN mp, OF all_but_second_missing]
  have 1: "length (results st) = 14" "{1..15} - dom (age_distributions st) = {2}"
    by (rule conjunct1, rule conjunct2)
  from b [THEN conjunct1, THEN spec, of 1]
  have 2: "age_distributions st 1 = Some series_123"
    by (simp add: all_but_second_def filename_inj)
  from b [THEN conjunct1, THEN spec, of 2]
  have 3: "age_distributions st 2 = None"
    by (simp add: all_but_second_def)
  from b [THEN conjunct1, THEN spec, of 16]
  have 4: "age_distributions st 16 = None"
    by simp
  from st 1 2 3 4 have "\<exists>st. load_all_strategies all_but_second = Inr st
         \<and> age_distributions st 1 = Some series_123
         \<and> age_distributions st 2 = None
         \<and> age_distributions st 16 = None
         \<and> length (results st) = 14 \<and> {1..15} - dom (age_distributions st) = {2}"
    by (intro exI [of _ st] conjI)
  moreover have "filter (\<lambda>i. all_but_second (filename i) = None) [1..<16] = [2]"
    unfolding strategy_numbers by (simp add: all_but_second_def filename_inj)
  ultimately show ?thesis using wf by (intro conjI)
qed

text \<open>
  C5, as claimed: the set of skipped numbers is returned beside the summary, and one
  missing file among three leaves two rows. With every file but that of strategy 2, the
  summary has 14 rows and what is returned beside it has the key 1 and lacks the key 2:
  it is not the set holding 2 alone.
\<close>

theorem load_all_strategies_returns_no_skipped_set:
  "\<not> isl (load_all_strategies all_but_second)
   \<and> length (results (projr (load_all_strategies all_but_second))) = 14
   \<and> 2 \<notin> dom (age_distributions (projr (load_all_strategies all_but_second)))
   \<and> 1 \<in> dom (age_distributions (projr (load_all_strategies all_but_second)))
   \<and> dom (age_distributions (projr (load_all_strategies all_but_second))) \<noteq> {2}"
proof -
  obtain st where st: "load_all_strategies all_but_second = Inr st"
    using load_all_strategies_succeeds [OF well_formed_all_but_second] by (elim exE)
  have k: "(2::nat) \<in> {1..15}" by simp
  have len: "length (results st) = 14"
    using st k all_but_second_missing by (rule length_results_one_missing)
  have d: "dom (age_distributions st) = {i \<in> {1..15}. all_but_second (filename i) \<noteq> None}"
    using st by (rule dom_age_distributions)
  have two: "2 \<notin> dom (age_distributions st)"
    unfolding d by (simp add: all_but_second_def)
  have one: "1 \<in> dom (age_distributions st)"
    unfolding d by (simp add: all_but_second_def filename_inj)
  have "dom (age_distributions st) \<noteq> {2}"
  proof
    assume "dom (age_distributions st) = {2}"
    with one have "(1::nat) \<in> {2}" by simp
    then show False by simp
  qed
  with len two one show ?thesis unfolding st by simp
qed

lemma results_empty_iff:
  assumes "load_all_strategies fs = Inr st"
  shows "(results st = []) = (\<forall>i \<in> {1..15}. fs (filename i) = None)"
proof -
  have "(results st = []) = (map Strategy (results st) = [])" by simp
  also have "\<dots> = (\<forall>i \<in> set [1..<16]. fs (filename i) = None)"
    unfolding load_all_strategies_Inr(3) [OF assms] filter_empty_conv by simp
  finally show ?thesis unfolding ids_set .
qed

lemma well_formed_missing:
  "\<forall>i \<in> {1..15}. fs (filename i) = None \<Longrightarrow> well_formed fs [1..<16]"
  unfolding well_formed_def ids_set by simp

text \<open>
  C6. When none of the fifteen files exists, \<open>load_all_strategies\<close> returns a summary
  without rows and no table, and \<open>main\<close> ends with the error message that no data files
  were found, whatever the presentation is: the presentation is not run. A summary that
  is returned has no rows exactly when none of the fifteen files exists.
\<close>

theorem empty_summary_is_reported:
  "((\<forall>i \<in> {1..15}. fs (filename i) = None) \<longrightarrow>
      (\<exists>st. load_all_strategies fs = Inr st \<and> results st = []
          \<and> age_distributions st = Map.empty
          \<and> (\<forall>present. \<exists>evs. main fs present = Inr (evs @ [St_error no_data_message]))
          \<and> (\<forall>present present'. main fs present = main fs present')))
   \<and> (\<forall>st. load_all_strategies fs = Inr st \<longrightarrow>
         (results st = []) = (\<forall>i \<in> {1..15}. fs (filename i) = None))"
proof (intro conjI allI impI)
  assume missing: "\<forall>i \<in> {1..15}. fs (filename i) = None"
  from load_all_strategies_succeeds [OF well_formed_missing [OF missing]]
  obtain st where st: "load_all_strategies fs = Inr st" by (elim exE)
  have r: "results st = []"
    using results_empty_iff [OF st] missing by simp
  have a: "age_distributions st = Map.empty"
    unfolding load_all_strategies_Inr(2) [OF st] ids_set using missing by (intro ext) simp
  have m: "\<exists>evs. main fs present = Inr (evs @ [St_error no_data_message])" for present
    by (simp add: main_def st r Let_def del: append_assoc add: append_assoc [symmetric])
  have m': "main fs present = main fs present'" for present present'
    by (simp add: main_def st r Let_def)
  show "\<exists>st. load_all_strategies fs = Inr st \<and> results st = []
          \<and> age_distributions st = Map.empty
          \<and> (\<forall>present. \<exists>evs. main fs present = Inr (evs @ [St_error no_data_message]))
          \<and> (\<forall>present present'. main fs present = main fs present')"
    using st r a m m' by (intro exI [of _ st] conjI allI)
next
  fix st assume "load_all_strategies fs = Inr st"
  then show "(results st = []) = (\<forall>i \<in> {1..15}. fs (filename i) = None)"
    by (rule results_empty_iff)
qed

theorem empty_summary_is_reported_witness:
  "filter (\<lambda>i. Map.empty (filename i) \<noteq> (None :: dataframe option)) [1..<16] = []
   \<and> (\<exists>st. load_all_strategies Map.empty = Inr st \<and> results st = []
         \<and> (\<exists>evs. main Map.empty (\<lambda>df ad. Inr []) = Inr (evs @ [St_error no_data_message]))
         \<and> main Map.empty (\<lambda>df ad. Inr []) = main Map.empty (\<lambda>df ad. Inl (KeyError ''Age'')))"
proof -
  have h: "\<forall>i \<in> {1..15}. Map.empty (filename i) = (None :: dataframe option)" by simp
  from empty_summary_is_reported [of Map.empty, THEN conjunct1, THEN mp, OF h]
  obtain st where st: "load_all_strategies Map.empty = Inr st" and r: "results st = []"
    and m: "\<forall>present. \<exists>evs. main Map.empty present = Inr (evs @ [St_error no_data_message])"
    and m': "\<forall>present present'. main Map.empty present = main Map.empty present'"
    by (elim exE conjE)
  from m have 1: "\<exists>evs. main Map.empty (\<lambda>df ad. Inr []) = Inr (evs @ [St_error no_data_message])"
    by (rule spec)
  from m' have 2: "main Map.empty (\<lambda>df ad. Inr []) = main Map.empty (\<lambda>df ad. Inl (KeyError ''Age''))"
    by (elim allE)
  from st r 1 2 have "\<exists>st. load_all_strategies Map.empty = Inr st \<and> results st = []
         \<and> (\<exists>evs. main Map.empty (\<lambda>df ad. Inr []) = Inr (evs @ [St_error no_data_message]))
         \<and> main Map.empty (\<lambda>df ad. Inr []) = main Map.empty (\<lambda>df ad. Inl (KeyError ''Age''))"
    by (intro exI [of _ st] conjI)
  moreover
  have "filter (\<lambda>i. Map.empty (filename i) \<noteq> (None :: dataframe option)) [1..<16] = []"
    by simp
  ultimately show ?thesis by (intro conjI)
qed

lemma all_zero_metrics:
  "calculate_metrics (Some all_zero) = Inr (Some
      \<lparr>total_cancers = 0, total_cancer_deaths = 0, total_life_years = 0,
       total_tests = 0, total_cyto = 0, total_hpv = 0, total_cotest = 0,
       total_cin2_detected = 0, total_cin3_detected = 0,
       case_fatality_rate = 0, cancer_rate_per_100k = 0, death_rate_per_100k = 0\<rparr>)"
  by (simp add: calculate_metrics_def all_zero_def getitem_def sum_if_present_def
      series_sum_def cell_value_def cell_at_def calculate_rates_def)

lemma row_iff_loaded:
  assumes "load_all_strategies fs = Inr st"
  shows "(i \<in> Strategy ` set (results st)) = (i \<in> {1..15} \<and> fs (filename i) \<noteq> None)"
proof -
  have "Strategy ` set (results st) = set (map Strategy (results st))" by simp
  also have "\<dots> = {i \<in> set [1..<16]. fs (filename i) \<noteq> None}"
    unfolding load_all_strategies_Inr(3) [OF assms] by (rule set_filter)
  finally show ?thesis unfolding ids_set by simp
qed

text \<open>
  C9. \<open>calculate_metrics\<close> of no table is no record, and of a table it is never no
  record; the table of zeros gives the record of zeros. A summary returned by
  \<open>load_all_strategies\<close> has no row and no table for a strategy whose file does not
  exist, and has a row for each of the fifteen strategies whose file exists.
\<close>

theorem absent_series_gives_no_record:
  "calculate_metrics None = Inr None
   \<and> (\<forall>df. calculate_metrics (Some df) \<noteq> Inr None)
   \<and> calculate_metrics (Some all_zero) = Inr (Some
        \<lparr>total_cancers = 0, total_cancer_deaths = 0, total_life_years = 0,
         total_tests = 0, total_cyto = 0, total_hpv = 0, total_cotest = 0,
         total_cin2_detected = 0, total_cin3_detected = 0,
         case_fatality_rate = 0, cancer_rate_per_100k = 0, death_rate_per_100k = 0\<rparr>)
   \<and> (\<forall>fs st i. load_all_strategies fs = Inr st \<longrightarrow> fs (filename i) = None \<longrightarrow>
         i \<notin> Strategy ` set (results st) \<and> age_distributions st i = None)
   \<and> (\<forall>fs st i. load_all_strategies fs = Inr st \<longrightarrow> i \<in> {1..15} \<longrightarrow>
         fs (filename i) \<noteq> None \<longrightarrow> i \<in> Strategy ` set (results st))"
proof (intro conjI allI impI)
  show "calculate_metrics None = Inr None"
    by (simp add: calculate_metrics_def)
next
  fix df show "calculate_metrics (Some df) \<noteq> Inr None"
    by (rule calculate_metrics_not_absent)
next
  show "calculate_metrics (Some all_zero) = Inr (Some
        \<lparr>total_cancers = 0, total_cancer_deaths = 0, total_life_years = 0,
         total_tests = 0, total_cyto = 0, total_hpv = 0, total_cotest = 0,
         total_cin2_detected = 0, total_cin3_detected = 0,
         case_fatality_rate = 0, cancer_rate_per_100k = 0, death_rate_per_100k = 0\<rparr>)"
    by (rule all_zero_metrics)
next
  fix fs st i assume st: "load_all_strategies fs = Inr st" and i: "fs (filename i) = None"
  show "i \<notin> Strategy ` set (results st)"
    unfolding row_iff_loaded [OF st] using i by simp
  show "age_distributions st i = None"
    unfolding load_all_strategies_Inr(2) [OF st] using i by simp
next
  fix fs st i
  assume st: "load_all_strategies fs = Inr st" and "i \<in> {1..15}" "fs (filename i) \<noteq> None"
  then show "i \<in> Strategy ` set (results st)"
    unfolding row_iff_loaded [OF st] by simp
qed

theorem absent_series_gives_no_record_witness:
  "only_first all_zero (filename 2) = None \<and> only_first all_zero (filename 1) \<noteq> None
   \<and> (\<exists>st. load_all_strategies (only_first all_zero) = Inr st
         \<and> 2 \<notin> Strategy ` set (results st) \<and> 1 \<in> Strategy ` set (results st))"
proof -
  have wf: "well_formed (only_first all_zero) [1..<16]"
    by (rule well_formed_only_first) (simp add: required_columns_def all_zero_def)
  obtain st where st: "load_all_strategies (only_first all_zero) = Inr st"
    using load_all_strategies_succeeds [OF wf] by (elim exE)
  have two: "only_first all_zero (filename 2) = None"
    by (simp add: only_first_def filename_inj)
  have one: "only_first all_zero (filename 1) \<noteq> None"
    by (simp add: only_first_def)
  have k: "(1::nat) \<in> {1..15}" by simp
  from absent_series_gives_no_record [THEN conjunct2, THEN conjunct2, THEN conjunct2, THEN conjunct1,
      THEN spec, THEN spec, THEN spec, THEN mp, OF st, THEN mp, OF two]
  have a: "2 \<notin> Strategy ` set (results st)" by (rule conjunct1)
  from absent_series_gives_no_record [THEN conjunct2, THEN conjunct2, THEN conjunct2, THEN conjunct2,
      THEN spec, THEN spec, THEN spec, THEN mp, OF st, THEN mp, OF k, THEN mp, OF one]
  have b: "1 \<in> Strategy ` set (results st)" .
  from st a b have "\<exists>st. load_all_strategies (only_first all_zero) = Inr st
         \<and> 2 \<notin> Strategy ` set (results st) \<and> 1 \<in> Strategy ` set (results st)"
    by (intro exI [of _ st] conjI)
  with two one show ?thesis by (intro conjI)
qed

lemma key_of_display:
  assumes "i \<in> {1..15}"
  shows "\<exists>info. STRATEGY_DEFINITIONS i = Some info \<and> display info = string_of_nat i
           \<and> overview_sort_key (display info) = (if i \<le> 9 then i else i + 3)"
proof -
  from assms have "i \<in> set [1..<16]" unfolding ids_set .
  from catalog_display [OF this] obtain info where
    "STRATEGY_DEFINITIONS i = Some info" "display info = string_of_nat i" by (elim exE conjE)
  then show ?thesis
    by (intro exI [of _ info]) (simp add: sort_key_string_of_nat)
qed

text \<open>
  C10. For every strategy number from 1 to 15 the display label of the catalog is the
  decimal text of the number; for 10 to 15 it is not the text of the number plus 3,
  although the sort key of the label is the number plus 3. Every row of a summary
  returned by \<open>load_all_strategies\<close> has a number from 1 to 15 and its decimal text as
  display label.
\<close>

theorem display_label_is_strategy_number:
  "(\<forall>i \<in> {1..15}. \<exists>info. STRATEGY_DEFINITIONS i = Some info \<and> display info = string_of_nat i)
   \<and> (\<forall>i \<in> {10..15}. \<exists>info. STRATEGY_DEFINITIONS i = Some info
         \<and> display info \<noteq> string_of_nat (i + 3)
         \<and> overview_sort_key (display info) = i + 3)
   \<and> (\<forall>fs st. load_all_strategies fs = Inr st \<longrightarrow>
         (\<forall>r \<in> set (results st). Strategy r \<in> {1..15} \<and> Display r = string_of_nat (Strategy r)))"
proof (intro conjI allI impI ballI)
  fix i :: nat assume "i \<in> {1..15}"
  from key_of_display [OF this]
  show "\<exists>info. STRATEGY_DEFINITIONS i = Some info \<and> display info = string_of_nat i"
    by (elim exE conjE) (intro exI conjI)
next
  fix i :: nat assume i: "i \<in> {10..15}"
  then have "i \<in> {1..15}" by simp
  from key_of_display [OF this] obtain info where
    info: "STRATEGY_DEFINITIONS i = Some info" "display info = string_of_nat i"
      "overview_sort_key (display info) = (if i \<le> 9 then i else i + 3)"
    by (elim exE conjE)
  from i have "string_of_nat i \<noteq> string_of_nat (i + 3)"
    by (simp add: string_of_nat_inj)
  with info i show "\<exists>info. STRATEGY_DEFINITIONS i = Some info
         \<and> display info \<noteq> string_of_nat (i + 3)
         \<and> overview_sort_key (display info) = i + 3"
    by (intro exI [of _ info]) simp
next
  fix fs st r assume st: "load_all_strategies fs = Inr st" and r: "r \<in> set (results st)"
  from results_rows [OF st r] show "Strategy r \<in> {1..15}"
    unfolding ids_set by (elim exE conjE)
  from results_Display [OF st r] show "Display r = string_of_nat (Strategy r)" .
qed

theorem display_label_is_strategy_number_witness:
  "(10::nat) \<in> {1..15} \<and> (10::nat) \<in> {10..15}
   \<and> (\<exists>info. STRATEGY_DEFINITIONS 10 = Some info \<and> display info = ''10''
         \<and> display info \<noteq> ''13'' \<and> overview_sort_key (display info) = 13)
   \<and> (\<exists>st. load_all_strategies all_but_second = Inr st
         \<and> results st ! 8 \<in> set (results st)
         \<and> Strategy (results st ! 8) = 10 \<and> Display (results st ! 8) = ''10'')"
proof -
  have k: "(10::nat) \<in> {10..15}" by simp
  have k': "(10::nat) \<in> {1..15}" by simp
  from display_label_is_strategy_number [THEN conjunct2, THEN conjunct1, THEN bspec, OF k]
  obtain info where
    info: "STRATEGY_DEFINITIONS 10 = Some info" "display info \<noteq> string_of_nat (10 + 3)"
      "overview_sort_key (display info) = 10 + 3"
    by (elim exE conjE)
  from display_label_is_strategy_number [THEN conjunct1, THEN bspec, OF k'] info(1)
  have d: "display info = string_of_nat 10" by (elim exE conjE) simp
  have s: "string_of_nat 10 = ''10''" "string_of_nat (10 + 3) = ''13''"
    by (simp_all add: string_of_nat.simps digit_char_def)
  from info d s have 1: "\<exists>info. STRATEGY_DEFINITIONS 10 = Some info \<and> display info = ''10''
         \<and> display info \<noteq> ''13'' \<and> overview_sort_key (display info) = 13"
    by (intro exI [of _ info]) simp
  obtain st where st: "load_all_strategies all_but_second = Inr st"
    using load_all_strategies_succeeds [OF well_formed_all_but_second] by (elim exE)
  have ids: "map Strategy (results st) = [1, 3, 4, 5, 6, 7, 8, 9, 10, 11, 12, 13, 14, 15]"
    using load_all_strategies_Inr(3) [OF st] present_all_but_second by simp
  then have "length (map Strategy (results st)) = 14" by simp
  then have len: "8 < length (results st)" by simp
  then have mem: "results st ! 8 \<in> set (results st)" by (rule nth_mem)
  from len have "Strategy (results st ! 8) = map Strategy (results st) ! 8" by simp
  with ids have ten: "Strategy (results st ! 8) = 10" by simp
  from display_label_is_strategy_number [THEN conjunct2, THEN conjunct2, THEN spec, THEN spec,
      THEN mp, OF st, THEN bspec, OF mem]
  have "Display (results st ! 8) = string_of_nat (Strategy (results st ! 8))"
    by (rule conjunct2)
  with ten s have "Display (results st ! 8) = ''10''" by simp
  with st mem ten have "\<exists>st. load_all_strategies all_but_second = Inr st
         \<and> results st ! 8 \<in> set (results st)
         \<and> Strategy (results st ! 8) = 10 \<and> Display (results st ! 8) = ''10''"
    by (intro exI [of _ st] conjI)
  with k k' 1 show ?thesis by (intro conjI)
qed

end
